theory Spec2Isabelle
  imports Main
begin

section \<open>Data model\<close>

text \<open>
  The persistent store is the SQLite database created by \<^verbatim>\<open>createTables\<close> in
  \<^verbatim>\<open>data/db.ts\<close>. Each table is a list of rows, in storage order. A timestamp is the
  instant it denotes, in milliseconds (the value of \<^verbatim>\<open>Date.getTime()\<close>); the database
  holds timestamps as text, and section \<open>Time\<close> says how the texts compare. Telegram ids
  are integers; card ids and titles are strings. Foreign keys are not modelled.
\<close>

datatype TaskStatus = TODO | IN_PROGRESS | IN_REVIEW | DONE

datatype TaskPriority = LOW | MEDIUM | HIGH | CRITICAL

datatype TaskCategory = DEVELOPMENT | DESIGN | TESTING | DOCUMENTATION | OTHER

datatype UserRole = ADMIN | OWNER | EMPLOYEE

text \<open>
  A row of table \<^verbatim>\<open>tasks\<close>. \<^verbatim>\<open>mapRowToTask\<close> only renames the columns
  (\<^verbatim>\<open>created_by\<close> becomes the string \<^verbatim>\<open>createdBy\<close>, which the jobs read back with
  \<^verbatim>\<open>parseInt\<close>), so the row stands for the \<^verbatim>\<open>Task\<close> object as well.
\<close>

record Task =
  task_rowid :: int
  planka_card_id :: string
  title :: string
  description :: "string option"
  priority :: TaskPriority
  category :: TaskCategory
  status :: TaskStatus
  created_by :: int
  assigned_to :: "int option"
  chat_id :: int
  due_date :: "int option"
  created_at :: int
  updated_at :: int

record User =
  telegram_id :: int
  role :: UserRole
  user_created_at :: int

text \<open>
  A row of table \<^verbatim>\<open>reminders\<close>: \<^verbatim>\<open>UNIQUE(task_id, user_id, type)\<close>, and
  \<^verbatim>\<open>type TEXT CHECK(type IN ('24h', '6h', '2h')) NOT NULL\<close>.
\<close>

record ReminderRow =
  rem_task_id :: int
  rem_user_id :: int
  rem_type :: string
  sent_at :: "int option"

text \<open>A row of table \<^verbatim>\<open>settings\<close>; the two flags are stored as integers.\<close>

record SettingsRow =
  set_user_id :: int
  digest_hour :: int
  digest_enabled :: int
  notifications_enabled :: int

record Db =
  tasks :: "Task list"
  users :: "User list"
  reminders :: "ReminderRow list"
  settings :: "SettingsRow list"

text \<open>
  What an operation can throw: an \<^verbatim>\<open>AppError\<close> with one of these codes of \<^verbatim>\<open>ErrorCodes\<close>, or
  a JavaScript \<^verbatim>\<open>TypeError\<close> (a property read on null, a call of something that is not a
  function).
\<close>

datatype Thrown = NOT_FOUND | INVALID_STATUS_TRANSITION | PLANKA_ERROR | DB_ERROR | TypeError

section \<open>Time\<close>

text \<open>
  \<^verbatim>\<open>tasksRepo\<close> stores a due date as \<^verbatim>\<open>toISOString()\<close> text,
  \<^verbatim>\<open>YYYY-MM-DDTHH:MM:SS.sssZ\<close>; SQLite's \<^verbatim>\<open>CURRENT_TIMESTAMP\<close> is the text
  \<^verbatim>\<open>YYYY-MM-DD HH:MM:SS\<close>, in UTC and to the second. The column type \<^verbatim>\<open>DATETIME\<close> leaves
  both as text, and SQLite compares texts byte by byte. Two ISO texts compare as their
  instants do. An ISO text and a \<^verbatim>\<open>CURRENT_TIMESTAMP\<close> text are decided by their first ten
  characters, the UTC date; on the same date the ISO text is the greater one, since its
  eleventh character \<^verbatim>\<open>T\<close> is greater than the space. (Years of four digits.)
\<close>

definition hour_ms :: int where
  "hour_ms = 60 * 60 * 1000"

definition day_ms :: int where
  "day_ms = 24 * 60 * 60 * 1000"

text \<open>The UTC date of an instant, as a day number.\<close>

definition utc_day :: "int \<Rightarrow> int" where
  "utc_day t = t div day_ms"

text \<open>The instant that the text of \<^verbatim>\<open>CURRENT_TIMESTAMP\<close> denotes: the clock cut to the second.\<close>

definition current_timestamp :: "int \<Rightarrow> int" where
  "current_timestamp now = (now div 1000) * 1000"

text \<open>\<^verbatim>\<open>due_date >= CURRENT_TIMESTAMP\<close> and \<^verbatim>\<open>due_date < CURRENT_TIMESTAMP\<close>, on an ISO text.\<close>

definition iso_ge_current_timestamp :: "int \<Rightarrow> int \<Rightarrow> bool" where
  "iso_ge_current_timestamp due now \<longleftrightarrow> utc_day due \<ge> utc_day now"

definition iso_lt_current_timestamp :: "int \<Rightarrow> int \<Rightarrow> bool" where
  "iso_lt_current_timestamp due now \<longleftrightarrow> utc_day due < utc_day now"

text \<open>
  \<^verbatim>\<open>new Date(text)\<close> on a \<^verbatim>\<open>CURRENT_TIMESTAMP\<close> text: the text is not in ISO layout, so it
  is read as local time. \<open>tz\<close> is the offset of the process's local time from UTC, in
  milliseconds (positive east of Greenwich).
\<close>

definition parse_local :: "int \<Rightarrow> int \<Rightarrow> int" where
  "parse_local tz stamp = stamp - tz"

section \<open>Task and user repositories\<close>

text \<open>\<^verbatim>\<open>tasksRepo.getByPlankaId\<close>: the row with that card id, or null.\<close>

definition getByPlankaId :: "Db \<Rightarrow> string \<Rightarrow> Task option" where
  "getByPlankaId db plankaCardId = find (\<lambda>t. planka_card_id t = plankaCardId) (tasks db)"

text \<open>\<^verbatim>\<open>usersRepo.getByTelegramId\<close> and \<^verbatim>\<open>usersRepo.getAll(role)\<close>
  (\<^verbatim>\<open>ORDER BY created_at DESC\<close>).\<close>

definition getByTelegramId :: "Db \<Rightarrow> int \<Rightarrow> User option" where
  "getByTelegramId db telegramId = find (\<lambda>u. telegram_id u = telegramId) (users db)"

definition getAll :: "Db \<Rightarrow> UserRole \<Rightarrow> User list" where
  "getAll db r = rev (sort_key user_created_at (filter (\<lambda>u. role u = r) (users db)))"

text \<open>
  The \<^verbatim>\<open>data\<close> argument of \<^verbatim>\<open>tasksRepo.update\<close>: every field is optional
  (\<^verbatim>\<open>undefined\<close> is \<open>None\<close>); \<^verbatim>\<open>assignedTo\<close> and \<^verbatim>\<open>dueDate\<close> may also be null.
\<close>

record TaskPatch =
  p_title :: "string option"
  p_description :: "string option"
  p_priority :: "TaskPriority option"
  p_status :: "TaskStatus option"
  p_assignedTo :: "int option option"
  p_dueDate :: "int option option"

definition no_patch :: TaskPatch where
  "no_patch = \<lparr>p_title = None, p_description = None, p_priority = None, p_status = None,
     p_assignedTo = None, p_dueDate = None\<rparr>"

definition patch_empty :: "TaskPatch \<Rightarrow> bool" where
  "patch_empty p \<longleftrightarrow> p_title p = None \<and> p_description p = None \<and> p_priority p = None \<and>
     p_status p = None \<and> p_assignedTo p = None \<and> p_dueDate p = None"

definition apply_patch :: "int \<Rightarrow> TaskPatch \<Rightarrow> Task \<Rightarrow> Task" where
  "apply_patch now p t =
     t\<lparr>title := (case p_title p of None \<Rightarrow> title t | Some v \<Rightarrow> v),
       description := (case p_description p of None \<Rightarrow> description t | Some v \<Rightarrow> Some v),
       priority := (case p_priority p of None \<Rightarrow> priority t | Some v \<Rightarrow> v),
       status := (case p_status p of None \<Rightarrow> status t | Some v \<Rightarrow> v),
       assigned_to := (case p_assignedTo p of None \<Rightarrow> assigned_to t | Some v \<Rightarrow> v),
       due_date := (case p_dueDate p of None \<Rightarrow> due_date t | Some v \<Rightarrow> v),
       updated_at := now\<rparr>"

text \<open>
  \<^verbatim>\<open>tasksRepo.update\<close>: with no field to set it only reads the task; otherwise it runs the
  \<^verbatim>\<open>UPDATE ... WHERE planka_card_id = @plankaCardId\<close> (which also sets \<^verbatim>\<open>updated_at\<close>),
  returns null when no row changed and the re-read task otherwise.
\<close>

definition tasksRepo_update :: "int \<Rightarrow> string \<Rightarrow> TaskPatch \<Rightarrow> Db \<Rightarrow> Task option \<times> Db" where
  "tasksRepo_update now plankaCardId p db =
     (if patch_empty p then (getByPlankaId db plankaCardId, db)
      else if \<not> (\<exists>t \<in> set (tasks db). planka_card_id t = plankaCardId) then (None, db)
      else let db' = db\<lparr>tasks := map (\<lambda>t. if planka_card_id t = plankaCardId
                                            then apply_patch (current_timestamp now) p t
                                            else t) (tasks db)\<rparr>
           in (getByPlankaId db' plankaCardId, db'))"

section \<open>Status transition engine\<close>

text \<open>The table \<^verbatim>\<open>allowedTransitions\<close> of \<^verbatim>\<open>validateStatusTransition\<close>.\<close>

fun allowedTransitions :: "TaskStatus \<Rightarrow> TaskStatus list" where
  "allowedTransitions TODO = [IN_PROGRESS, DONE]"
| "allowedTransitions IN_PROGRESS = [TODO, IN_REVIEW, DONE]"
| "allowedTransitions IN_REVIEW = [IN_PROGRESS, DONE]"
| "allowedTransitions DONE = [TODO, IN_PROGRESS]"

definition validateStatusTransition :: "TaskStatus \<Rightarrow> TaskStatus \<Rightarrow> Thrown + unit" where
  "validateStatusTransition from to =
     (if to \<in> set (allowedTransitions from) then Inr () else Inl INVALID_STATUS_TRANSITION)"

text \<open>
  Board list names are JavaScript strings: lists of UTF-16 code units.
  \<^verbatim>\<open>String.prototype.toLowerCase\<close> belongs to the JavaScript runtime, not to the
  repository: the functions below take it as an argument, written \<open>lower\<close>.
\<close>

type_synonym utf16 = "nat list"

definition ascii :: "string \<Rightarrow> utf16" where
  "ascii s = map of_char s"

text \<open>\<^verbatim>\<open>String.prototype.includes\<close>: the argument occurs as a contiguous substring.\<close>

fun js_includes :: "utf16 \<Rightarrow> utf16 \<Rightarrow> bool" where
  "js_includes [] sub = (sub = [])"
| "js_includes (c # cs) sub = (take (length sub) (c # cs) = sub \<or> js_includes cs sub)"

record PlankaList =
  list_id :: string
  list_name :: utf16

text \<open>
  The table \<^verbatim>\<open>statusToListName\<close>. The Cyrillic names are written as their code units:
  \<^verbatim>\<open>novye, novaya, k vypolneniyu; v rabote, vypolnyaetsya; proverka, na proverke;
  gotovo, vypolneno\<close>.
\<close>

fun statusToListName :: "TaskStatus \<Rightarrow> utf16 list" where
  "statusToListName TODO =
     [ascii ''todo'', [1085, 1086, 1074, 1099, 1077], [1085, 1086, 1074, 1072, 1103],
      ascii ''backlog'', [1082, 32, 1074, 1099, 1087, 1086, 1083, 1085, 1077, 1085, 1080, 1102]]"
| "statusToListName IN_PROGRESS =
     [ascii ''in progress'', [1074, 32, 1088, 1072, 1073, 1086, 1090, 1077], ascii ''doing'',
      [1074, 1099, 1087, 1086, 1083, 1085, 1103, 1077, 1090, 1089, 1103]]"
| "statusToListName IN_REVIEW =
     [ascii ''review'', [1087, 1088, 1086, 1074, 1077, 1088, 1082, 1072],
      [1085, 1072, 32, 1087, 1088, 1086, 1074, 1077, 1088, 1082, 1077], ascii ''testing'']"
| "statusToListName DONE =
     [ascii ''done'', [1075, 1086, 1090, 1086, 1074, 1086],
      [1074, 1099, 1087, 1086, 1083, 1085, 1077, 1085, 1086], ascii ''completed'',
      ascii ''finished'']"

text \<open>The loop over \<^verbatim>\<open>possibleNames\<close>: the first name that some list matches wins.\<close>

fun findByNames :: "(utf16 \<Rightarrow> utf16) \<Rightarrow> PlankaList list \<Rightarrow> utf16 list \<Rightarrow> PlankaList option" where
  "findByNames lower lsts [] = None"
| "findByNames lower lsts (name # names) =
     (case find (\<lambda>l. js_includes (lower (list_name l)) (lower name)) lsts of
        Some l \<Rightarrow> Some l
      | None \<Rightarrow> findByNames lower lsts names)"

fun statusToIndex :: "PlankaList list \<Rightarrow> TaskStatus \<Rightarrow> int" where
  "statusToIndex lsts TODO = 0"
| "statusToIndex lsts IN_PROGRESS = 1"
| "statusToIndex lsts IN_REVIEW = 2"
| "statusToIndex lsts DONE = int (length lsts) - 1"

text \<open>
  \<^verbatim>\<open>getListForStatus\<close>. \<^verbatim>\<open>lists[index]\<close> is \<^verbatim>\<open>undefined\<close> outside the array, also
  at index \<open>-1\<close> (status done on an empty board).
\<close>

definition getListForStatus ::
  "(utf16 \<Rightarrow> utf16) \<Rightarrow> PlankaList list \<Rightarrow> TaskStatus \<Rightarrow> PlankaList option" where
  "getListForStatus lower lsts st =
     (case findByNames lower lsts (statusToListName st) of
        Some l \<Rightarrow> Some l
      | None \<Rightarrow>
          (let index = statusToIndex lsts st
           in if 0 \<le> index \<and> index < int (length lsts) then Some (lsts ! nat index)
              else None))"

text \<open>
  What the engine gets from outside. \<^verbatim>\<open>plankaClient.getBoardLists\<close> either returns the
  lists or throws an \<^verbatim>\<open>AppError\<close> with code \<^verbatim>\<open>PLANKA_ERROR\<close> (\<open>None\<close>);
  \<^verbatim>\<open>plankaClient.updateCard\<close> either succeeds or throws the same; \<^verbatim>\<open>toLowerCase\<close> is the
  runtime's. Every call of the engine to the board or to the task store's \<^verbatim>\<open>update\<close> is
  recorded, in order.
\<close>

record Board =
  boardLists :: "PlankaList list option"
  updateCardOk :: "string \<Rightarrow> string \<Rightarrow> bool"
  toLowerCase :: "utf16 \<Rightarrow> utf16"

datatype Effect =
    BoardGetLists
  | BoardUpdateCard string string
  | TaskStoreUpdate string TaskStatus

record StatusResult =
  res_task :: Task
  previousStatus :: TaskStatus
  movedBy :: "User option"

text \<open>
  \<^verbatim>\<open>formatStatusChangeComment(from, to, user)\<close> reads \<^verbatim>\<open>user.fullName\<close>: on the null that
  \<^verbatim>\<open>usersRepo.getByTelegramId\<close> gives for an unknown actor this is a \<^verbatim>\<open>TypeError\<close>. The
  text of the comment is left out.
\<close>

definition formatStatusChangeComment ::
  "TaskStatus \<Rightarrow> TaskStatus \<Rightarrow> User option \<Rightarrow> Thrown + unit" where
  "formatStatusChangeComment from to user =
     (case user of None \<Rightarrow> Inl TypeError | Some u \<Rightarrow> Inr ())"

text \<open>
  \<^verbatim>\<open>updateTaskStatus(taskId, newStatus, userId)\<close>. The result is the value returned or
  what was thrown, the store afterwards, and the calls made.
\<close>

definition updateTaskStatus ::
  "Board \<Rightarrow> int \<Rightarrow> string \<Rightarrow> TaskStatus \<Rightarrow> int \<Rightarrow> Db
     \<Rightarrow> (Thrown + StatusResult) \<times> Db \<times> Effect list" where
  "updateTaskStatus board now taskId newStatus userId db =
     (case getByPlankaId db taskId of
        None \<Rightarrow> (Inl NOT_FOUND, db, [])
      | Some task \<Rightarrow>
          if status task = newStatus
          then (Inr \<lparr>res_task = task, previousStatus = status task,
                     movedBy = getByTelegramId db userId\<rparr>, db, [])
          else
            (case validateStatusTransition (status task) newStatus of
               Inl e \<Rightarrow> (Inl e, db, [])
             | Inr _ \<Rightarrow>
                 (case boardLists board of
                    None \<Rightarrow> (Inl PLANKA_ERROR, db, [BoardGetLists])
                  | Some lsts \<Rightarrow>
                      (case getListForStatus (toLowerCase board) lsts newStatus of
                         None \<Rightarrow> (Inl PLANKA_ERROR, db, [BoardGetLists])
                       | Some targetList \<Rightarrow>
                           if \<not> updateCardOk board (planka_card_id task) (list_id targetList)
                           then (Inl PLANKA_ERROR, db,
                                 [BoardGetLists,
                                  BoardUpdateCard (planka_card_id task) (list_id targetList)])
                           else
                             (case tasksRepo_update now (planka_card_id task)
                                     (no_patch\<lparr>p_status := Some newStatus\<rparr>) db of
                                (None, db') \<Rightarrow>
                                  (Inl DB_ERROR, db',
                                   [BoardGetLists,
                                    BoardUpdateCard (planka_card_id task) (list_id targetList),
                                    TaskStoreUpdate (planka_card_id task) newStatus])
                              | (Some updatedTask, db') \<Rightarrow>
                                  (case formatStatusChangeComment (status task) newStatus
                                          (getByTelegramId db' userId) of
                                     Inl e \<Rightarrow>
                                       (Inl e, db',
                                        [BoardGetLists,
                                         BoardUpdateCard (planka_card_id task)
                                           (list_id targetList),
                                         TaskStoreUpdate (planka_card_id task) newStatus])
                                   | Inr _ \<Rightarrow>
                                       (Inr \<lparr>res_task = updatedTask,
                                              previousStatus = status task,
                                              movedBy = getByTelegramId db' userId\<rparr>, db',
                                        [BoardGetLists,
                                         BoardUpdateCard (planka_card_id task)
                                           (list_id targetList),
                                         TaskStoreUpdate (planka_card_id task)
                                           newStatus])))))))"

text \<open>
  \<^verbatim>\<open>autoUpdateStatusOnAssign(taskId, assigneeId)\<close>: null for an unknown task; the number
  \<^verbatim>\<open>assigneeId\<close> counts as set when it is not zero.
\<close>

definition autoUpdateStatusOnAssign ::
  "Board \<Rightarrow> int \<Rightarrow> string \<Rightarrow> int \<Rightarrow> Db \<Rightarrow> (Thrown + Task option) \<times> Db \<times> Effect list" where
  "autoUpdateStatusOnAssign board now taskId assigneeId db =
     (case getByPlankaId db taskId of
        None \<Rightarrow> (Inr None, db, [])
      | Some task \<Rightarrow>
          if status task = TODO \<and> assigneeId \<noteq> 0
          then (case updateTaskStatus board now taskId IN_PROGRESS assigneeId db of
                  (Inl e, db', calls) \<Rightarrow> (Inl e, db', calls)
                | (Inr result, db', calls) \<Rightarrow> (Inr (Some (res_task result)), db', calls))
          else (Inr (Some task), db, []))"

section \<open>Reminder ledger\<close>

text \<open>
  The constraint \<^verbatim>\<open>CHECK(type IN ('24h', '6h', '2h'))\<close> of table \<^verbatim>\<open>reminders\<close>. A
  statement that would store a row violating it fails (the driver throws), whatever its
  conflict clause: \<^verbatim>\<open>OR REPLACE\<close> and \<^verbatim>\<open>ON CONFLICT ... DO UPDATE\<close> resolve
  uniqueness conflicts only.
\<close>

definition type_check :: "string \<Rightarrow> bool" where
  "type_check ty \<longleftrightarrow> ty \<in> {''24h'', ''6h'', ''2h''}"

datatype SqliteError = SQLITE_CONSTRAINT_CHECK

text \<open>The columns of \<^verbatim>\<open>UNIQUE(task_id, user_id, type)\<close>.\<close>

definition same_key :: "ReminderRow \<Rightarrow> ReminderRow \<Rightarrow> bool" where
  "same_key a b \<longleftrightarrow>
     rem_task_id a = rem_task_id b \<and> rem_user_id a = rem_user_id b \<and> rem_type a = rem_type b"

text \<open>
  \<^verbatim>\<open>INSERT INTO reminders ... ON CONFLICT(task_id, user_id, type) DO UPDATE SET sent_at = ...\<close>
  and \<^verbatim>\<open>INSERT OR REPLACE INTO reminders ...\<close>, for one row.
\<close>

definition upsert_reminder :: "ReminderRow \<Rightarrow> ReminderRow list \<Rightarrow> SqliteError + ReminderRow list" where
  "upsert_reminder row rows =
     (if \<not> type_check (rem_type row) then Inl SQLITE_CONSTRAINT_CHECK
      else if \<exists>r \<in> set rows. same_key r row
      then Inr (map (\<lambda>r. if same_key r row then r\<lparr>sent_at := sent_at row\<rparr> else r) rows)
      else Inr (rows @ [row]))"

definition replace_reminder :: "ReminderRow \<Rightarrow> ReminderRow list \<Rightarrow> SqliteError + ReminderRow list" where
  "replace_reminder row rows =
     (if \<not> type_check (rem_type row) then Inl SQLITE_CONSTRAINT_CHECK
      else Inr (filter (\<lambda>r. \<not> same_key r row) rows @ [row]))"

text \<open>The subquery \<^verbatim>\<open>SELECT id FROM tasks WHERE planka_card_id = ?\<close>.\<close>

definition task_id_of :: "Db \<Rightarrow> string \<Rightarrow> int option" where
  "task_id_of db taskId = map_option task_rowid (getByPlankaId db taskId)"

text \<open>\<^verbatim>\<open>wasReminderSent(taskId, type)\<close>: some row of the task and type has \<^verbatim>\<open>sent_at\<close> set.\<close>

definition wasReminderSent :: "Db \<Rightarrow> string \<Rightarrow> string \<Rightarrow> bool" where
  "wasReminderSent db taskId ty =
     (case task_id_of db taskId of
        None \<Rightarrow> False
      | Some i \<Rightarrow> \<exists>r \<in> set (reminders db). rem_task_id r = i \<and> rem_type r = ty \<and> sent_at r \<noteq> None)"

text \<open>
  \<^verbatim>\<open>markReminderSent(taskId, type)\<close>: one row per task with that card id, for the task's
  creator, stamped with \<^verbatim>\<open>CURRENT_TIMESTAMP\<close>.
\<close>

definition markReminderSent :: "int \<Rightarrow> string \<Rightarrow> string \<Rightarrow> Db \<Rightarrow> SqliteError + Db" where
  "markReminderSent now taskId ty db =
     (case getByPlankaId db taskId of
        None \<Rightarrow> Inr db
      | Some t \<Rightarrow>
          (case upsert_reminder \<lparr>rem_task_id = task_rowid t, rem_user_id = created_by t,
                                 rem_type = ty, sent_at = Some (current_timestamp now)\<rparr>
                  (reminders db) of
             Inl e \<Rightarrow> Inl e
           | Inr rows \<Rightarrow> Inr (db\<lparr>reminders := rows\<rparr>)))"

text \<open>
  \<^verbatim>\<open>getLastOverdueReminder(taskId)\<close>: \<^verbatim>\<open>MAX(sent_at)\<close> over the task's rows of type
  \<^verbatim>\<open>'overdue'\<close>, read back with \<^verbatim>\<open>new Date\<close>; null when there is none.
\<close>

definition getLastOverdueReminder :: "int \<Rightarrow> Db \<Rightarrow> string \<Rightarrow> int option" where
  "getLastOverdueReminder tz db taskId =
     (case task_id_of db taskId of
        None \<Rightarrow> None
      | Some i \<Rightarrow>
          (case List.map_filter sent_at
                  (filter (\<lambda>r. rem_task_id r = i \<and> rem_type r = ''overdue'') (reminders db)) of
             [] \<Rightarrow> None
           | x # xs \<Rightarrow> Some (parse_local tz (fold max xs x))))"

text \<open>\<^verbatim>\<open>markOverdueReminderSent(taskId)\<close>.\<close>

definition markOverdueReminderSent :: "int \<Rightarrow> string \<Rightarrow> Db \<Rightarrow> SqliteError + Db" where
  "markOverdueReminderSent now taskId db =
     (case getByPlankaId db taskId of
        None \<Rightarrow> Inr db
      | Some t \<Rightarrow>
          (case replace_reminder \<lparr>rem_task_id = task_rowid t, rem_user_id = created_by t,
                                  rem_type = ''overdue'',
                                  sent_at = Some (current_timestamp now)\<rparr> (reminders db) of
             Inl e \<Rightarrow> Inl e
           | Inr rows \<Rightarrow> Inr (db\<lparr>reminders := rows\<rparr>)))"

section \<open>Deadline sweep\<close>

text \<open>
  One run of \<^verbatim>\<open>sendReminders\<close> reads the clock once: \<open>now\<close> stands for both
  \<^verbatim>\<open>new Date()\<close> and SQLite's \<^verbatim>\<open>CURRENT_TIMESTAMP\<close>.
\<close>

definition due_ms :: "Task \<Rightarrow> int" where
  "due_ms t = (case due_date t of None \<Rightarrow> 0 | Some d \<Rightarrow> d)"

text \<open>
  \<^verbatim>\<open>tasksRepo.getUpcomingDeadlines(hoursAhead)\<close>:
  \<^verbatim>\<open>due_date <= ? AND due_date >= CURRENT_TIMESTAMP AND status != 'done' ORDER BY due_date ASC\<close>,
  where \<^verbatim>\<open>?\<close> is the ISO text of the clock moved \<^verbatim>\<open>hoursAhead\<close> hours on.
\<close>

definition getUpcomingDeadlines :: "int \<Rightarrow> int \<Rightarrow> Db \<Rightarrow> Task list" where
  "getUpcomingDeadlines now hoursAhead db =
     sort_key due_ms
       (filter (\<lambda>t. case due_date t of
                       None \<Rightarrow> False
                     | Some d \<Rightarrow> d \<le> now + hoursAhead * hour_ms
                                 \<and> iso_ge_current_timestamp d now \<and> status t \<noteq> DONE)
          (tasks db))"

text \<open>\<^verbatim>\<open>tasksRepo.getOverdueTasks()\<close>:
  \<^verbatim>\<open>due_date < CURRENT_TIMESTAMP AND status != 'done' ORDER BY due_date DESC\<close>.\<close>

definition getOverdueTasks :: "int \<Rightarrow> Db \<Rightarrow> Task list" where
  "getOverdueTasks now db =
     rev (sort_key due_ms
       (filter (\<lambda>t. case due_date t of
                       None \<Rightarrow> False
                     | Some d \<Rightarrow> iso_lt_current_timestamp d now \<and> status t \<noteq> DONE)
          (tasks db)))"

text \<open>\<^verbatim>\<open>Object.entries(REMINDER_WINDOWS)\<close>, in the order of the object's keys.\<close>

definition REMINDER_WINDOWS :: "(string \<times> int) list" where
  "REMINDER_WINDOWS = [(''FIRST'', 24), (''SECOND'', 6), (''THIRD'', 2)]"

text \<open>
  A message for \<^verbatim>\<open>bot.telegram.sendMessage\<close>: the chat it goes to and what it is about (the
  text is left out).
\<close>

datatype Outbound =
    ReminderMsg int string string
  | OverdueMsg int string
  | MorningDigestMsg int
  | EveningDigestMsg int

text \<open>
  What a job does that can be seen from outside the store: \<open>Sent m\<close> is a call of
  \<^verbatim>\<open>sendMessage\<close> with \<open>m\<close>; \<open>Caught m\<close> is a send function that threw while preparing
  \<open>m\<close> and logged the error in its own \<^verbatim>\<open>catch\<close>, without calling \<^verbatim>\<open>sendMessage\<close>;
  \<open>JobFailed e\<close> is the \<^verbatim>\<open>catch\<close> around the body of \<^verbatim>\<open>sendReminders\<close>.
\<close>

datatype Event =
    Sent Outbound
  | Caught Outbound
  | JobFailed SqliteError

text \<open>
  The jobs import \<^verbatim>\<open>getTexts\<close> from \<^verbatim>\<open>bot/replies\<close>, and \<^verbatim>\<open>bot/replies/index.ts\<close> exports
  \<^verbatim>\<open>getText\<close> only: the imported binding is \<^verbatim>\<open>undefined\<close>, and the call
  \<^verbatim>\<open>getTexts(user.language)\<close> throws a \<^verbatim>\<open>TypeError\<close>.
\<close>

definition getTexts :: "User \<Rightarrow> Thrown + unit" where
  "getTexts user = Inl TypeError"

text \<open>
  The \<^verbatim>\<open>Set\<close> of recipients: the creator, then the assignee if one is set, once each, in
  insertion order.
\<close>

definition recipients :: "Task \<Rightarrow> int list" where
  "recipients task =
     created_by task #
       (case assigned_to task of
          None \<Rightarrow> []
        | Some a \<Rightarrow> if a \<noteq> 0 \<and> a \<noteq> created_by task then [a] else [])"

text \<open>
  \<^verbatim>\<open>sendReminderToUser\<close> and \<^verbatim>\<open>sendOverdueReminderToUser\<close>, each inside its own
  \<^verbatim>\<open>try\<close>: nothing for an unknown user; then the texts are fetched, the message is built
  and \<^verbatim>\<open>sendMessage\<close> is called.
\<close>

definition sendReminderToUser :: "Db \<Rightarrow> int \<Rightarrow> Task \<Rightarrow> string \<Rightarrow> Event list" where
  "sendReminderToUser db userId task ty =
     (case getByTelegramId db userId of
        None \<Rightarrow> []
      | Some user \<Rightarrow>
          (case getTexts user of
             Inl e \<Rightarrow> [Caught (ReminderMsg userId (planka_card_id task) ty)]
           | Inr t \<Rightarrow> [Sent (ReminderMsg userId (planka_card_id task) ty)]))"

definition sendOverdueReminderToUser :: "Db \<Rightarrow> int \<Rightarrow> Task \<Rightarrow> Event list" where
  "sendOverdueReminderToUser db userId task =
     (case getByTelegramId db userId of
        None \<Rightarrow> []
      | Some user \<Rightarrow>
          (case getTexts user of
             Inl e \<Rightarrow> [Caught (OverdueMsg userId (planka_card_id task))]
           | Inr t \<Rightarrow> [Sent (OverdueMsg userId (planka_card_id task))]))"

text \<open>
  The loops of \<^verbatim>\<open>sendReminders\<close>. A database error thrown inside a loop ends the whole
  run (it is caught by the \<^verbatim>\<open>try\<close> around the body of \<^verbatim>\<open>sendReminders\<close>); what was
  written and sent before it stays. Each loop returns the error if one was thrown, the
  store, and the events.
\<close>

fun remindTasks ::
  "int \<Rightarrow> string \<Rightarrow> Task list \<Rightarrow> Db \<Rightarrow> SqliteError option \<times> Db \<times> Event list" where
  "remindTasks now ty [] db = (None, db, [])"
| "remindTasks now ty (task # rest) db =
     (if status task = DONE then remindTasks now ty rest db
      else if wasReminderSent db (planka_card_id task) ty then remindTasks now ty rest db
      else
        (let evs = concat (map (\<lambda>userId. sendReminderToUser db userId task ty)
                            (recipients task))
         in case markReminderSent now (planka_card_id task) ty db of
              Inl e \<Rightarrow> (Some e, db, evs)
            | Inr db' \<Rightarrow>
                (case remindTasks now ty rest db' of
                   (err, db'', out) \<Rightarrow> (err, db'', evs @ out))))"

fun remindWindows ::
  "int \<Rightarrow> (string \<times> int) list \<Rightarrow> Db \<Rightarrow> SqliteError option \<times> Db \<times> Event list" where
  "remindWindows now [] db = (None, db, [])"
| "remindWindows now ((ty, hours) # windows) db =
     (case remindTasks now ty (getUpcomingDeadlines now hours db) db of
        (Some e, db', out) \<Rightarrow> (Some e, db', out)
      | (None, db', out) \<Rightarrow>
          (case remindWindows now windows db' of
             (err, db'', out') \<Rightarrow> (err, db'', out @ out')))"

fun remindOverdue ::
  "int \<Rightarrow> int \<Rightarrow> Task list \<Rightarrow> Db \<Rightarrow> SqliteError option \<times> Db \<times> Event list" where
  "remindOverdue tz now [] db = (None, db, [])"
| "remindOverdue tz now (task # rest) db =
     (if (case getLastOverdueReminder tz db (planka_card_id task) of
            None \<Rightarrow> True
          | Some lastOverdueReminder \<Rightarrow> now - lastOverdueReminder > 24 * 60 * 60 * 1000)
      then
        (let evs = concat (map (\<lambda>userId. sendOverdueReminderToUser db userId task)
                            (recipients task))
         in case markOverdueReminderSent now (planka_card_id task) db of
              Inl e \<Rightarrow> (Some e, db, evs)
            | Inr db' \<Rightarrow>
                (case remindOverdue tz now rest db' of
                   (err, db'', out) \<Rightarrow> (err, db'', evs @ out)))
      else remindOverdue tz now rest db)"

text \<open>
  \<^verbatim>\<open>sendReminders()\<close> at time \<open>now\<close>, in a process whose local time is \<open>tz\<close> ahead of
  UTC: the store afterwards and the events of the run.
\<close>

definition sendReminders :: "int \<Rightarrow> int \<Rightarrow> Db \<Rightarrow> Db \<times> Event list" where
  "sendReminders tz now db =
     (case remindWindows now REMINDER_WINDOWS db of
        (Some e, db', out) \<Rightarrow> (db', out @ [JobFailed e])
      | (None, db', out) \<Rightarrow>
          (case remindOverdue tz now (getOverdueTasks now db') db' of
             (Some e, db'', out') \<Rightarrow> (db'', out @ out' @ [JobFailed e])
           | (None, db'', out') \<Rightarrow> (db'', out @ out')))"

text \<open>
  The scheduler runs the job again and again: the runs at the given times, one after the
  other on the same store, and the events of each of them.
\<close>

fun sweeps :: "int \<Rightarrow> int list \<Rightarrow> Db \<Rightarrow> Db \<times> Event list list" where
  "sweeps tz [] db = (db, [])"
| "sweeps tz (now # nows) db =
     (case sendReminders tz now db of
        (db', out) \<Rightarrow> (case sweeps tz nows db' of (db'', outs) \<Rightarrow> (db'', out # outs)))"

section \<open>Daily digest\<close>

record UserSettings =
  digestEnabled :: bool
  digestHour :: int
  notificationsEnabled :: bool

text \<open>\<^verbatim>\<open>getUserSettings(userId)\<close> of the digest job: the row, or the defaults.\<close>

definition getUserSettings :: "Db \<Rightarrow> int \<Rightarrow> UserSettings" where
  "getUserSettings db userId =
     (case find (\<lambda>s. set_user_id s = userId) (settings db) of
        None \<Rightarrow> \<lparr>digestEnabled = True, digestHour = 9, notificationsEnabled = True\<rparr>
      | Some row \<Rightarrow> \<lparr>digestEnabled = (digest_enabled row \<noteq> 0), digestHour = digest_hour row,
                     notificationsEnabled = (notifications_enabled row \<noteq> 0)\<rparr>)"

datatype DigestType = Morning | Evening

text \<open>
  \<^verbatim>\<open>sendMorningDigest\<close> and \<^verbatim>\<open>sendEveningDigest\<close>, each inside its own \<^verbatim>\<open>try\<close>: nothing
  for an unknown user; then the texts are fetched, the user's tasks are read, and one
  message is sent to the user. They write nothing.
\<close>

definition sendMorningDigest :: "Db \<Rightarrow> int \<Rightarrow> Event list" where
  "sendMorningDigest db userId =
     (case getByTelegramId db userId of
        None \<Rightarrow> []
      | Some user \<Rightarrow>
          (case getTexts user of
             Inl e \<Rightarrow> [Caught (MorningDigestMsg userId)]
           | Inr t \<Rightarrow> [Sent (MorningDigestMsg userId)]))"

definition sendEveningDigest :: "Db \<Rightarrow> int \<Rightarrow> Event list" where
  "sendEveningDigest db userId =
     (case getByTelegramId db userId of
        None \<Rightarrow> []
      | Some user \<Rightarrow>
          (case getTexts user of
             Inl e \<Rightarrow> [Caught (EveningDigestMsg userId)]
           | Inr t \<Rightarrow> [Sent (EveningDigestMsg userId)]))"

text \<open>The loop of \<^verbatim>\<open>sendDailyDigest\<close> over the recipients.\<close>

fun digestLoop :: "DigestType \<Rightarrow> Db \<Rightarrow> User list \<Rightarrow> Event list" where
  "digestLoop ty db [] = []"
| "digestLoop ty db (user # rest) =
     (let s = getUserSettings db (telegram_id user)
      in if \<not> digestEnabled s then digestLoop ty db rest
         else if ty = Morning \<and> digestHour s \<noteq> 9 then digestLoop ty db rest
         else (if ty = Morning then sendMorningDigest db (telegram_id user)
               else sendEveningDigest db (telegram_id user)) @ digestLoop ty db rest)"

text \<open>\<^verbatim>\<open>sendDailyDigest(type)\<close>: the recipients are the owners and then the administrators.\<close>

definition sendDailyDigest :: "DigestType \<Rightarrow> Db \<Rightarrow> Event list" where
  "sendDailyDigest ty db = digestLoop ty db (getAll db OWNER @ getAll db ADMIN)"

section \<open>Sample data\<close>

text \<open>A small store used to run the operations on concrete inputs: an employee (11) and an
  owner (22), and one task created by the owner and assigned to the employee. The clock
  \<open>t0\<close> is 2023-11-14 22:13:20 UTC.\<close>

definition t0 :: int where
  "t0 = 1700000000000"

definition demo_task :: "TaskStatus \<Rightarrow> int option \<Rightarrow> Task" where
  "demo_task st due =
     \<lparr>task_rowid = 1, planka_card_id = ''c1'', title = ''report'', description = None,
      priority = MEDIUM, category = OTHER, status = st, created_by = 22,
      assigned_to = Some 11, chat_id = 500, due_date = due, created_at = 0, updated_at = 0\<rparr>"

definition demo_db :: "Task list \<Rightarrow> Db" where
  "demo_db ts =
     \<lparr>tasks = ts,
      users = [\<lparr>telegram_id = 11, role = EMPLOYEE, user_created_at = 0\<rparr>,
               \<lparr>telegram_id = 22, role = OWNER, user_created_at = 1\<rparr>],
      reminders = [], settings = []\<rparr>"

text \<open>A lower-casing of the Latin and the Cyrillic capitals, for the sample board.\<close>

definition lower_unit :: "nat \<Rightarrow> nat" where
  "lower_unit c =
     (if 65 \<le> c \<and> c \<le> 90 then c + 32
      else if 1040 \<le> c \<and> c \<le> 1071 then c + 32
      else if 1024 \<le> c \<and> c \<le> 1039 then c + 80
      else c)"

definition demo_board :: "PlankaList list option \<Rightarrow> bool \<Rightarrow> Board" where
  "demo_board ls ok =
     \<lparr>boardLists = ls, updateCardOk = (\<lambda>c l. ok), toLowerCase = map lower_unit\<rparr>"

definition demo_lists :: "PlankaList list" where
  "demo_lists = [\<lparr>list_id = ''l1'', list_name = ascii ''Backlog''\<rparr>,
                 \<lparr>list_id = ''l2'', list_name = ascii ''In Progress''\<rparr>,
                 \<lparr>list_id = ''l3'', list_name = ascii ''Done''\<rparr>]"

text \<open>A ledger with one row, for the sample task.\<close>

definition demo_ledger :: "ReminderRow list" where
  "demo_ledger = [\<lparr>rem_task_id = 1, rem_user_id = 22, rem_type = ''24h'', sent_at = Some 5\<rparr>]"

section \<open>Properties stated about the store and the events\<close>

text \<open>Two stores that agree on every table but \<^verbatim>\<open>reminders\<close>.\<close>

definition only_reminders_differ :: "Db \<Rightarrow> Db \<Rightarrow> bool" where
  "only_reminders_differ db db' \<longleftrightarrow>
     tasks db' = tasks db \<and> users db' = users db \<and> settings db' = settings db"

text \<open>The key of a ledger row, and the invariant of the ledger: every row has one of the four
  window types, and no two rows have the same key.\<close>

definition rem_key :: "ReminderRow \<Rightarrow> int \<times> int \<times> string" where
  "rem_key r = (rem_task_id r, rem_user_id r, rem_type r)"

definition ledger_ok :: "ReminderRow list \<Rightarrow> bool" where
  "ledger_ok rows \<longleftrightarrow>
     (\<forall>r \<in> set rows. rem_type r \<in> {''24h'', ''6h'', ''2h'', ''overdue''})
     \<and> distinct (map rem_key rows)"

text \<open>The chat a message is for; the messages that were sent; the messages that a send
  function was called for, sent or not.\<close>

fun chat_of :: "Outbound \<Rightarrow> int" where
  "chat_of (ReminderMsg u c ty) = u"
| "chat_of (OverdueMsg u c) = u"
| "chat_of (MorningDigestMsg u) = u"
| "chat_of (EveningDigestMsg u) = u"

fun sent_of :: "Event list \<Rightarrow> Outbound list" where
  "sent_of [] = []"
| "sent_of (Sent m # es) = m # sent_of es"
| "sent_of (e # es) = sent_of es"

fun addressed :: "Event list \<Rightarrow> Outbound list" where
  "addressed [] = []"
| "addressed (Sent m # es) = m # addressed es"
| "addressed (Caught m # es) = m # addressed es"
| "addressed (e # es) = addressed es"

section \<open>The status transition engine: results\<close>

lemma allowed_irrefl: "s \<notin> set (allowedTransitions s)"
  by (cases s) simp_all

lemma find_Some_mem: "find P xs = Some x \<Longrightarrow> x \<in> set xs \<and> P x"
  by (induction xs) (auto split: if_splits)

lemma find_map_patch:
  "find (\<lambda>t. planka_card_id t = c) ts = Some t \<Longrightarrow>
   find (\<lambda>t. planka_card_id t = c)
     (map (\<lambda>t. if planka_card_id t = c then apply_patch now p t else t) ts)
   = Some (apply_patch now p t)"
  by (induction ts) (auto simp: apply_patch_def)

lemma getByPlankaId_card: "getByPlankaId db c = Some t \<Longrightarrow> planka_card_id t = c"
  using find_Some_mem [of "\<lambda>t. planka_card_id t = c" "tasks db" t]
  by (simp add: getByPlankaId_def)

lemma tasksRepo_update_status:
  assumes "getByPlankaId db c = Some t"
  shows "tasksRepo_update now c (no_patch\<lparr>p_status := Some s\<rparr>) db =
     (Some (apply_patch (current_timestamp now) (no_patch\<lparr>p_status := Some s\<rparr>) t),
      db\<lparr>tasks := map (\<lambda>t. if planka_card_id t = c
                             then apply_patch (current_timestamp now)
                                    (no_patch\<lparr>p_status := Some s\<rparr>) t
                             else t) (tasks db)\<rparr>)"
proof -
  from assms have f: "find (\<lambda>t. planka_card_id t = c) (tasks db) = Some t"
    by (simp add: getByPlankaId_def)
  then have "\<exists>t \<in> set (tasks db). planka_card_id t = c"
    using find_Some_mem by fastforce
  moreover have "\<not> patch_empty (no_patch\<lparr>p_status := Some s\<rparr>)"
    by (simp add: patch_empty_def no_patch_def)
  ultimately show ?thesis
    using find_map_patch [OF f]
    by (simp add: tasksRepo_update_def Let_def getByPlankaId_def)
qed

lemma demo_lookup [simp]:
  "getByPlankaId (demo_db [demo_task st due]) ''c1'' = Some (demo_task st due)"
  by (simp add: getByPlankaId_def demo_db_def demo_task_def)

lemma demo_status [simp]: "status (demo_task st due) = st"
  by (simp add: demo_task_def)

text \<open>
  C4. A transition between two different statuses that is not in the table is refused:
  \<^verbatim>\<open>updateTaskStatus\<close> throws \<^verbatim>\<open>INVALID_STATUS_TRANSITION\<close>, calls neither the board nor
  the task store, and the store (so the task's status) is what it was.
\<close>

theorem invalid_transition_rejected:
  assumes "getByPlankaId db taskId = Some task" and "status task = s1"
    and "s1 \<noteq> s2" and "s2 \<notin> set (allowedTransitions s1)"
  shows "updateTaskStatus board now taskId s2 userId db = (Inl INVALID_STATUS_TRANSITION, db, [])
       \<and> map_option status (getByPlankaId db taskId) = Some s1"
  using assms by (simp add: updateTaskStatus_def validateStatusTransition_def)

theorem invalid_transition_rejected_witness:
  "updateTaskStatus (demo_board (Some demo_lists) True) 1000 ''c1'' IN_REVIEW 22
       (demo_db [demo_task TODO None])
     = (Inl INVALID_STATUS_TRANSITION, demo_db [demo_task TODO None], [])
   \<and> map_option status (getByPlankaId (demo_db [demo_task TODO None]) ''c1'') = Some TODO"
  by (rule invalid_transition_rejected [where task = "demo_task TODO None"]) simp_all

text \<open>What \<^verbatim>\<open>updateTaskStatus\<close> does once the board has been updated: the store is written,
  and then the comment is formatted, which throws for an actor who is not a user.\<close>

lemma updateTaskStatus_after_board:
  assumes task: "getByPlankaId db taskId = Some task"
    and valid: "newStatus \<in> set (allowedTransitions (status task))"
    and board: "boardLists board = Some lsts"
      "getListForStatus (toLowerCase board) lsts newStatus = Some l"
      "updateCardOk board taskId (list_id l)"
  shows "updateTaskStatus board now taskId newStatus userId db =
     ((case getByTelegramId db userId of
         None \<Rightarrow> Inl TypeError
       | Some u \<Rightarrow> Inr \<lparr>res_task = apply_patch (current_timestamp now)
                                       (no_patch\<lparr>p_status := Some newStatus\<rparr>) task,
                         previousStatus = status task, movedBy = Some u\<rparr>),
      db\<lparr>tasks := map (\<lambda>t. if planka_card_id t = taskId
                             then apply_patch (current_timestamp now)
                                    (no_patch\<lparr>p_status := Some newStatus\<rparr>) t
                             else t) (tasks db)\<rparr>,
      [BoardGetLists, BoardUpdateCard taskId (list_id l), TaskStoreUpdate taskId newStatus])"
proof -
  have ne: "status task \<noteq> newStatus"
    using valid allowed_irrefl by metis
  have v: "validateStatusTransition (status task) newStatus = Inr ()"
    using valid by (simp add: validateStatusTransition_def)
  have c: "planka_card_id task = taskId"
    using task by (rule getByPlankaId_card)
  show ?thesis
    using task ne v c board tasksRepo_update_status [OF task, of now newStatus]
    by (simp add: updateTaskStatus_def getByTelegramId_def formatStatusChangeComment_def
        split: option.splits)
qed

text \<open>
  C5. For a transition of the table, the task store is written only after the board has
  been updated: when \<^verbatim>\<open>getBoardLists\<close> fails, when no list is found for the status, or
  when \<^verbatim>\<open>updateCard\<close> fails, the call throws \<^verbatim>\<open>PLANKA_ERROR\<close>, the store is unchanged
  and \<^verbatim>\<open>tasksRepo.update\<close> is not called; when the board update succeeds, the store
  update follows it and the new status is persisted (the call then returns for an actor
  who is a user, and throws a \<^verbatim>\<open>TypeError\<close> for one who is not).
\<close>

theorem store_written_only_after_board:
  assumes task: "getByPlankaId db taskId = Some task"
    and valid: "newStatus \<in> set (allowedTransitions (status task))"
  shows "(boardLists board = None \<longrightarrow>
            updateTaskStatus board now taskId newStatus userId db =
              (Inl PLANKA_ERROR, db, [BoardGetLists]))
       \<and> (\<forall>lsts. boardLists board = Some lsts
              \<and> getListForStatus (toLowerCase board) lsts newStatus = None \<longrightarrow>
            updateTaskStatus board now taskId newStatus userId db =
              (Inl PLANKA_ERROR, db, [BoardGetLists]))
       \<and> (\<forall>lsts l. boardLists board = Some lsts
              \<and> getListForStatus (toLowerCase board) lsts newStatus = Some l
              \<and> \<not> updateCardOk board taskId (list_id l) \<longrightarrow>
            updateTaskStatus board now taskId newStatus userId db =
              (Inl PLANKA_ERROR, db, [BoardGetLists, BoardUpdateCard taskId (list_id l)]))
       \<and> (\<forall>lsts l. boardLists board = Some lsts
              \<and> getListForStatus (toLowerCase board) lsts newStatus = Some l
              \<and> updateCardOk board taskId (list_id l) \<longrightarrow>
            (\<exists>db'. snd (updateTaskStatus board now taskId newStatus userId db) =
                 (db', [BoardGetLists, BoardUpdateCard taskId (list_id l),
                        TaskStoreUpdate taskId newStatus])
               \<and> map_option status (getByPlankaId db' taskId) = Some newStatus
               \<and> (getByTelegramId db userId = None \<longrightarrow>
                    fst (updateTaskStatus board now taskId newStatus userId db) = Inl TypeError)
               \<and> (getByTelegramId db userId \<noteq> None \<longrightarrow>
                    (\<exists>res. fst (updateTaskStatus board now taskId newStatus userId db) = Inr res
                       \<and> previousStatus res = status task
                       \<and> status (res_task res) = newStatus))))"
proof -
  have ne: "status task \<noteq> newStatus"
    using valid allowed_irrefl by metis
  have v: "validateStatusTransition (status task) newStatus = Inr ()"
    using valid by (simp add: validateStatusTransition_def)
  have c: "planka_card_id task = taskId"
    using task by (rule getByPlankaId_card)
  have a: "boardLists board = None \<longrightarrow>
            updateTaskStatus board now taskId newStatus userId db =
              (Inl PLANKA_ERROR, db, [BoardGetLists])"
    using task ne v by (simp add: updateTaskStatus_def)
  have b: "\<forall>lsts. boardLists board = Some lsts
              \<and> getListForStatus (toLowerCase board) lsts newStatus = None \<longrightarrow>
            updateTaskStatus board now taskId newStatus userId db =
              (Inl PLANKA_ERROR, db, [BoardGetLists])"
    using task ne v by (simp add: updateTaskStatus_def)
  have d: "\<forall>lsts l. boardLists board = Some lsts
              \<and> getListForStatus (toLowerCase board) lsts newStatus = Some l
              \<and> \<not> updateCardOk board taskId (list_id l) \<longrightarrow>
            updateTaskStatus board now taskId newStatus userId db =
              (Inl PLANKA_ERROR, db, [BoardGetLists, BoardUpdateCard taskId (list_id l)])"
    using task ne v c by (simp add: updateTaskStatus_def)
  have e: "\<exists>db'. snd (updateTaskStatus board now taskId newStatus userId db) =
                 (db', [BoardGetLists, BoardUpdateCard taskId (list_id l),
                        TaskStoreUpdate taskId newStatus])
               \<and> map_option status (getByPlankaId db' taskId) = Some newStatus
               \<and> (getByTelegramId db userId = None \<longrightarrow>
                    fst (updateTaskStatus board now taskId newStatus userId db) = Inl TypeError)
               \<and> (getByTelegramId db userId \<noteq> None \<longrightarrow>
                    (\<exists>res. fst (updateTaskStatus board now taskId newStatus userId db) = Inr res
                       \<and> previousStatus res = status task
                       \<and> status (res_task res) = newStatus))"
    if "boardLists board = Some lsts"
      and "getListForStatus (toLowerCase board) lsts newStatus = Some l"
      and "updateCardOk board taskId (list_id l)" for lsts l
    using updateTaskStatus_after_board [OF task valid that, of now userId]
      find_map_patch [of taskId "tasks db" task "current_timestamp now"
                         "no_patch\<lparr>p_status := Some newStatus\<rparr>"] task
    by (auto simp: getByPlankaId_def apply_patch_def)
  from a b d e show ?thesis by blast
qed

lemma demo_getList_done:
  "getListForStatus (map lower_unit) demo_lists DONE
     = Some \<lparr>list_id = ''l3'', list_name = ascii ''Done''\<rparr>"
  by (simp add: getListForStatus_def demo_lists_def ascii_def lower_unit_def)

lemma getList_empty_done: "getListForStatus lower [] DONE = None"
  by (simp add: getListForStatus_def)

text \<open>The cases of C5 on the sample store, for the transition from todo to done: the three
  board failures, the success for the owner 22, and the success for 99, who is not a user.\<close>

theorem store_written_only_after_board_witness:
  "updateTaskStatus (demo_board None True) 1000 ''c1'' DONE 22 (demo_db [demo_task TODO None])
     = (Inl PLANKA_ERROR, demo_db [demo_task TODO None], [BoardGetLists])
 \<and> updateTaskStatus (demo_board (Some []) True) 1000 ''c1'' DONE 22 (demo_db [demo_task TODO None])
     = (Inl PLANKA_ERROR, demo_db [demo_task TODO None], [BoardGetLists])
 \<and> updateTaskStatus (demo_board (Some demo_lists) False) 1000 ''c1'' DONE 22
       (demo_db [demo_task TODO None])
     = (Inl PLANKA_ERROR, demo_db [demo_task TODO None],
        [BoardGetLists, BoardUpdateCard ''c1'' ''l3''])
 \<and> (\<exists>res db'. updateTaskStatus (demo_board (Some demo_lists) True) 1000 ''c1'' DONE 22
         (demo_db [demo_task TODO None])
       = (Inr res, db', [BoardGetLists, BoardUpdateCard ''c1'' ''l3'', TaskStoreUpdate ''c1'' DONE])
     \<and> map_option status (getByPlankaId db' ''c1'') = Some DONE
     \<and> previousStatus res = TODO)
 \<and> (\<exists>db'. updateTaskStatus (demo_board (Some demo_lists) True) 1000 ''c1'' DONE 99
         (demo_db [demo_task TODO None])
       = (Inl TypeError, db',
          [BoardGetLists, BoardUpdateCard ''c1'' ''l3'', TaskStoreUpdate ''c1'' DONE])
     \<and> map_option status (getByPlankaId db' ''c1'') = Some DONE)"
proof -
  let ?db = "demo_db [demo_task TODO None]"
  have t: "getByPlankaId ?db ''c1'' = Some (demo_task TODO None)"
    by simp
  have v: "DONE \<in> set (allowedTransitions (status (demo_task TODO None)))"
    by simp
  note th = store_written_only_after_board [OF t v]
  have u22: "getByTelegramId ?db 22 \<noteq> None" and u99: "getByTelegramId ?db 99 = None"
    by (simp_all add: getByTelegramId_def demo_db_def)
  have a: "updateTaskStatus (demo_board None True) 1000 ''c1'' DONE 22 ?db
     = (Inl PLANKA_ERROR, ?db, [BoardGetLists])"
    using th [of "demo_board None True" 1000 22] by (simp add: demo_board_def)
  have b: "updateTaskStatus (demo_board (Some []) True) 1000 ''c1'' DONE 22 ?db
     = (Inl PLANKA_ERROR, ?db, [BoardGetLists])"
    using th [of "demo_board (Some []) True" 1000 22] getList_empty_done
    by (simp add: demo_board_def)
  have c: "updateTaskStatus (demo_board (Some demo_lists) False) 1000 ''c1'' DONE 22 ?db
     = (Inl PLANKA_ERROR, ?db, [BoardGetLists, BoardUpdateCard ''c1'' ''l3''])"
    using th [of "demo_board (Some demo_lists) False" 1000 22] demo_getList_done
    by (simp add: demo_board_def)
  have d: "\<exists>res db'. updateTaskStatus (demo_board (Some demo_lists) True) 1000 ''c1'' DONE 22 ?db
       = (Inr res, db', [BoardGetLists, BoardUpdateCard ''c1'' ''l3'', TaskStoreUpdate ''c1'' DONE])
     \<and> map_option status (getByPlankaId db' ''c1'') = Some DONE
     \<and> previousStatus res = TODO"
    using th [of "demo_board (Some demo_lists) True" 1000 22] demo_getList_done u22
    by (cases "updateTaskStatus (demo_board (Some demo_lists) True) 1000 ''c1'' DONE 22 ?db")
       (auto simp: demo_board_def)
  have e: "\<exists>db'. updateTaskStatus (demo_board (Some demo_lists) True) 1000 ''c1'' DONE 99 ?db
       = (Inl TypeError, db',
          [BoardGetLists, BoardUpdateCard ''c1'' ''l3'', TaskStoreUpdate ''c1'' DONE])
     \<and> map_option status (getByPlankaId db' ''c1'') = Some DONE"
    using th [of "demo_board (Some demo_lists) True" 1000 99] demo_getList_done u99
    by (cases "updateTaskStatus (demo_board (Some demo_lists) True) 1000 ''c1'' DONE 99 ?db")
       (auto simp: demo_board_def)
  from a b c d e show ?thesis by blast
qed

text \<open>
  C7. When the target status is the task's current status, \<^verbatim>\<open>updateTaskStatus\<close> returns
  the task as it is, with no call to the board and none to the task store's update; the
  store is unchanged. A task that is done and is moved to done is such a case.
\<close>

theorem same_status_noop:
  assumes "getByPlankaId db taskId = Some task" and "status task = newStatus"
  shows "updateTaskStatus board now taskId newStatus userId db =
           (Inr \<lparr>res_task = task, previousStatus = newStatus,
                  movedBy = getByTelegramId db userId\<rparr>, db, [])"
  using assms by (simp add: updateTaskStatus_def)

theorem same_status_noop_witness:
  "updateTaskStatus (demo_board (Some demo_lists) True) 1000 ''c1'' DONE 22
       (demo_db [demo_task DONE None])
     = (Inr \<lparr>res_task = demo_task DONE None, previousStatus = DONE,
             movedBy = getByTelegramId (demo_db [demo_task DONE None]) 22\<rparr>,
        demo_db [demo_task DONE None], [])"
  by (rule same_status_noop) simp_all

text \<open>
  C10. \<^verbatim>\<open>autoUpdateStatusOnAssign\<close> returns null for an unknown task (it does not throw),
  and for a task whose status is not todo it returns the task as it is, with no call to the
  board or to the task store.
\<close>

theorem auto_update_guards:
  "(getByPlankaId db taskId = None \<longrightarrow>
      autoUpdateStatusOnAssign board now taskId assigneeId db = (Inr None, db, []))
 \<and> (\<forall>task. getByPlankaId db taskId = Some task \<and> status task \<noteq> TODO \<longrightarrow>
      autoUpdateStatusOnAssign board now taskId assigneeId db = (Inr (Some task), db, []))"
  by (simp add: autoUpdateStatusOnAssign_def)

theorem auto_update_guards_witness:
  "autoUpdateStatusOnAssign (demo_board (Some demo_lists) True) 1000 ''zz'' 11
       (demo_db [demo_task IN_REVIEW None]) = (Inr None, demo_db [demo_task IN_REVIEW None], [])
 \<and> autoUpdateStatusOnAssign (demo_board (Some demo_lists) True) 1000 ''c1'' 11
       (demo_db [demo_task IN_REVIEW None])
     = (Inr (Some (demo_task IN_REVIEW None)), demo_db [demo_task IN_REVIEW None], [])"
proof -
  have n: "getByPlankaId (demo_db [demo_task IN_REVIEW None]) ''zz'' = None"
    by (simp add: getByPlankaId_def demo_db_def demo_task_def)
  show ?thesis
    using auto_update_guards [of "demo_db [demo_task IN_REVIEW None]" "''zz''"
                                 "demo_board (Some demo_lists) True" 1000 11]
      auto_update_guards [of "demo_db [demo_task IN_REVIEW None]" "''c1''"
                                 "demo_board (Some demo_lists) True" 1000 11] n
    by simp
qed

section \<open>The deadline sweep: results\<close>

subsection \<open>What every run of the sweep preserves\<close>

text \<open>A property of the store that the two ledger writes preserve is preserved by the loops,
  by a run and by any number of runs.\<close>

lemma remindTasks_preserves:
  assumes mark: "\<And>c db db'. P db \<Longrightarrow> markReminderSent now c ty db = Inr db' \<Longrightarrow> P db'"
  shows "P db \<Longrightarrow> P (fst (snd (remindTasks now ty ts db)))"
proof (induction ts arbitrary: db)
  case Nil
  then show ?case by simp
next
  case (Cons task rest)
  show ?case
  proof (cases "status task = DONE \<or> wasReminderSent db (planka_card_id task) ty")
    case True
    then show ?thesis using Cons.IH [OF Cons.prems] by auto
  next
    case False
    show ?thesis
    proof (cases "markReminderSent now (planka_card_id task) ty db")
      case (Inl e)
      with False Cons.prems show ?thesis by (simp add: Let_def)
    next
      case (Inr db')
      have "P db'" using Cons.prems Inr by (rule mark)
      then have "P (fst (snd (remindTasks now ty rest db')))" by (rule Cons.IH)
      then show ?thesis
        using False Inr by (auto simp: Let_def split: prod.splits)
    qed
  qed
qed

lemma remindWindows_preserves:
  "(\<And>ty c db db'. ty \<in> fst ` set ws \<Longrightarrow> P db \<Longrightarrow>
       markReminderSent now c ty db = Inr db' \<Longrightarrow> P db') \<Longrightarrow>
   P db \<Longrightarrow> P (fst (snd (remindWindows now ws db)))"
proof (induction ws arbitrary: db)
  case Nil
  then show ?case by simp
next
  case (Cons w ws)
  obtain ty hours where w: "w = (ty, hours)" by (cases w)
  obtain e db' out where r: "remindTasks now ty (getUpcomingDeadlines now hours db) db = (e, db', out)"
    by (cases "remindTasks now ty (getUpcomingDeadlines now hours db) db")
  have "P (fst (snd (remindTasks now ty (getUpcomingDeadlines now hours db) db)))"
    using Cons.prems(2)
    by (rule remindTasks_preserves [rotated]) (rule Cons.prems(1), simp_all add: w)
  then have a: "P db'"
    using r by simp
  show ?case
  proof (cases e)
    case None
    have "P (fst (snd (remindWindows now ws db')))"
      using a by (rule Cons.IH [rotated]) (rule Cons.prems(1), simp_all)
    with None w r show ?thesis by (auto split: prod.splits)
  next
    case (Some x)
    with w r a show ?thesis by simp
  qed
qed

lemma remindOverdue_preserves:
  assumes mark: "\<And>c db db'. P db \<Longrightarrow> markOverdueReminderSent now c db = Inr db' \<Longrightarrow> P db'"
  shows "P db \<Longrightarrow> P (fst (snd (remindOverdue tz now ts db)))"
proof (induction ts arbitrary: db)
  case Nil
  then show ?case by simp
next
  case (Cons task rest)
  show ?case
  proof (cases "case getLastOverdueReminder tz db (planka_card_id task) of
            None \<Rightarrow> True
          | Some lastOverdueReminder \<Rightarrow> now - lastOverdueReminder > 24 * 60 * 60 * 1000")
    case False
    then show ?thesis using Cons.IH [OF Cons.prems] by simp
  next
    case True
    show ?thesis
    proof (cases "markOverdueReminderSent now (planka_card_id task) db")
      case (Inl e)
      with True Cons.prems show ?thesis by (simp add: Let_def)
    next
      case (Inr db')
      have "P db'" using Cons.prems Inr by (rule mark)
      then have "P (fst (snd (remindOverdue tz now rest db')))" by (rule Cons.IH)
      then show ?thesis
        using True Inr by (auto simp: Let_def split: prod.splits)
    qed
  qed
qed

lemma sendReminders_preserves:
  assumes mark: "\<And>now c ty db db'. ty \<in> fst ` set REMINDER_WINDOWS \<Longrightarrow> P db \<Longrightarrow>
                   markReminderSent now c ty db = Inr db' \<Longrightarrow> P db'"
    and over: "\<And>now c db db'. P db \<Longrightarrow> markOverdueReminderSent now c db = Inr db' \<Longrightarrow> P db'"
    and P: "P db"
  shows "P (fst (sendReminders tz now db))"
proof -
  obtain e db' out where w: "remindWindows now REMINDER_WINDOWS db = (e, db', out)"
    by (cases "remindWindows now REMINDER_WINDOWS db")
  have "P (fst (snd (remindWindows now REMINDER_WINDOWS db)))"
    using P by (rule remindWindows_preserves [rotated]) (rule mark)
  then have a: "P db'"
    using w by simp
  show ?thesis
  proof (cases e)
    case (Some x)
    with w a show ?thesis by (simp add: sendReminders_def)
  next
    case None
    have "P (fst (snd (remindOverdue tz now (getOverdueTasks now db') db')))"
      using over a by (rule remindOverdue_preserves)
    with None w show ?thesis
      by (auto simp: sendReminders_def split: prod.splits option.splits)
  qed
qed

lemma sweeps_preserves:
  assumes mark: "\<And>now c ty db db'. ty \<in> fst ` set REMINDER_WINDOWS \<Longrightarrow> P db \<Longrightarrow>
                   markReminderSent now c ty db = Inr db' \<Longrightarrow> P db'"
    and over: "\<And>now c db db'. P db \<Longrightarrow> markOverdueReminderSent now c db = Inr db' \<Longrightarrow> P db'"
  shows "P db \<Longrightarrow> P (fst (sweeps tz nows db))"
proof (induction nows arbitrary: db)
  case Nil
  then show ?case by simp
next
  case (Cons now nows)
  have "P (fst (sendReminders tz now db))"
    using mark over Cons.prems by (rule sendReminders_preserves)
  then have "P (fst (sweeps tz nows (fst (sendReminders tz now db))))"
    by (rule Cons.IH)
  then show ?case by (auto split: prod.splits)
qed

subsection \<open>Ledger\<close>

lemma same_key_iff: "same_key a b \<longleftrightarrow> rem_key a = rem_key b"
  by (auto simp: same_key_def rem_key_def)

lemma upsert_reminder_ok:
  assumes "ledger_ok rows" and "upsert_reminder row rows = Inr rows'"
  shows "ledger_ok rows'"
proof (cases "\<exists>r \<in> set rows. same_key r row")
  case True
  with assms(2) have r: "rows' = map (\<lambda>r. if same_key r row then r\<lparr>sent_at := sent_at row\<rparr> else r) rows"
    by (simp add: upsert_reminder_def split: if_splits)
  have "map rem_key rows' = map rem_key rows"
    unfolding r by (simp add: rem_key_def)
  moreover have "\<forall>r \<in> set rows'. rem_type r \<in> {''24h'', ''6h'', ''2h'', ''overdue''}"
    unfolding r using assms(1) by (auto simp: ledger_ok_def)
  ultimately show ?thesis using assms(1) by (simp add: ledger_ok_def)
next
  case False
  with assms(2) have r: "rows' = rows @ [row]" and t: "type_check (rem_type row)"
    by (simp_all add: upsert_reminder_def split: if_splits)
  from False have "rem_key row \<notin> set (map rem_key rows)"
    by (auto simp: same_key_iff)
  with assms(1) t show ?thesis
    unfolding r by (auto simp: ledger_ok_def type_check_def)
qed

lemma replace_reminder_ok:
  assumes "ledger_ok rows" and "replace_reminder row rows = Inr rows'"
  shows "ledger_ok rows'"
proof -
  from assms(2) have r: "rows' = filter (\<lambda>r. \<not> same_key r row) rows @ [row]"
    and t: "type_check (rem_type row)"
    by (simp_all add: replace_reminder_def split: if_splits)
  have "rem_key row \<notin> set (map rem_key (filter (\<lambda>r. \<not> same_key r row) rows))"
    by (auto simp: same_key_iff)
  moreover have "distinct (map rem_key (filter (\<lambda>r. \<not> same_key r row) rows))"
    using assms(1) by (simp add: ledger_ok_def distinct_map_filter)
  ultimately show ?thesis
    using assms(1) t unfolding r by (auto simp: ledger_ok_def type_check_def)
qed

lemma markReminderSent_ok:
  "ledger_ok (reminders db) \<Longrightarrow> markReminderSent now c ty db = Inr db' \<Longrightarrow> ledger_ok (reminders db')"
  by (auto simp: markReminderSent_def split: option.splits sum.splits dest: upsert_reminder_ok)

lemma markOverdueReminderSent_ok:
  "ledger_ok (reminders db) \<Longrightarrow> markOverdueReminderSent now c db = Inr db' \<Longrightarrow> ledger_ok (reminders db')"
  by (auto simp: markOverdueReminderSent_def split: option.splits sum.splits dest: replace_reminder_ok)

text \<open>
  C3. Starting from a ledger whose rows have window types among \<^verbatim>\<open>24h\<close>, \<^verbatim>\<open>6h\<close>,
  \<^verbatim>\<open>2h\<close> and \<^verbatim>\<open>overdue\<close> and pairwise different keys (task, recipient, window type),
  any sequence of sweeps leaves such a ledger; and so does every successful write of
  \<^verbatim>\<open>markReminderSent\<close>, with any type, and of \<^verbatim>\<open>markOverdueReminderSent\<close>.
\<close>

theorem ledger_invariant:
  assumes "ledger_ok (reminders db)"
  shows "ledger_ok (reminders (fst (sweeps tz nows db)))
       \<and> (\<forall>now c ty db'. markReminderSent now c ty db = Inr db' \<longrightarrow> ledger_ok (reminders db'))
       \<and> (\<forall>now c db'. markOverdueReminderSent now c db = Inr db' \<longrightarrow> ledger_ok (reminders db'))"
proof -
  have "ledger_ok (reminders (fst (sweeps tz nows db)))"
    using assms
    by (rule sweeps_preserves [where P = "\<lambda>d. ledger_ok (reminders d)", rotated 2])
       (erule (1) markReminderSent_ok, erule (1) markOverdueReminderSent_ok)
  then show ?thesis
    using assms markReminderSent_ok markOverdueReminderSent_ok by blast
qed

text \<open>On the sample store with a one-row ledger: after two sweeps, and after recording the
  six-hour window with \<^verbatim>\<open>markReminderSent\<close>.\<close>

theorem ledger_invariant_witness:
  "ledger_ok (reminders (fst (sweeps 0 [t0, t0 + hour_ms]
      ((demo_db [demo_task TODO (Some (t0 + 5 * hour_ms))])\<lparr>reminders := demo_ledger\<rparr>))))
 \<and> (\<exists>db'. markReminderSent t0 ''c1'' ''6h''
        ((demo_db [demo_task TODO (Some (t0 + 5 * hour_ms))])\<lparr>reminders := demo_ledger\<rparr>) = Inr db'
      \<and> reminders db' = demo_ledger @ [\<lparr>rem_task_id = 1, rem_user_id = 22, rem_type = ''6h'',
                                          sent_at = Some t0\<rparr>]
      \<and> ledger_ok (reminders db'))"
proof -
  let ?db = "(demo_db [demo_task TODO (Some (t0 + 5 * hour_ms))])\<lparr>reminders := demo_ledger\<rparr>"
  have ok: "ledger_ok (reminders ?db)"
    by (simp add: ledger_ok_def demo_ledger_def)
  note th = ledger_invariant [OF ok]
  have m: "markReminderSent t0 ''c1'' ''6h'' ?db
      = Inr (?db\<lparr>reminders := demo_ledger @ [\<lparr>rem_task_id = 1, rem_user_id = 22, rem_type = ''6h'',
                                          sent_at = Some t0\<rparr>]\<rparr>)"
    by (simp add: markReminderSent_def getByPlankaId_def demo_db_def demo_task_def
        upsert_reminder_def type_check_def same_key_def demo_ledger_def current_timestamp_def
        t0_def)
  from th [of 0 "[t0, t0 + hour_ms]"]
  have a: "ledger_ok (reminders (fst (sweeps 0 [t0, t0 + hour_ms] ?db)))"
    and b: "\<forall>now c ty db'. markReminderSent now c ty ?db = Inr db' \<longrightarrow> ledger_ok (reminders db')"
    by blast+
  from b m have "ledger_ok (reminders (?db\<lparr>reminders := demo_ledger @
      [\<lparr>rem_task_id = 1, rem_user_id = 22, rem_type = ''6h'', sent_at = Some t0\<rparr>]\<rparr>))"
    by blast
  with a m show ?thesis by simp
qed

subsection \<open>Frame\<close>

lemma markReminderSent_frame:
  "only_reminders_differ d0 db \<Longrightarrow> markReminderSent now c ty db = Inr db' \<Longrightarrow> only_reminders_differ d0 db'"
  by (auto simp: markReminderSent_def only_reminders_differ_def split: option.splits sum.splits)

lemma markOverdueReminderSent_frame:
  "only_reminders_differ d0 db \<Longrightarrow> markOverdueReminderSent now c db = Inr db' \<Longrightarrow> only_reminders_differ d0 db'"
  by (auto simp: markOverdueReminderSent_def only_reminders_differ_def split: option.splits sum.splits)

text \<open>
  C8. A run of \<^verbatim>\<open>sendReminders\<close>, and any sequence of runs, leaves table \<^verbatim>\<open>tasks\<close> as it
  was: no task's status changes. Only table \<^verbatim>\<open>reminders\<close> can differ afterwards.
\<close>

theorem sweep_never_changes_tasks:
  "tasks (fst (sendReminders tz now db)) = tasks db
   \<and> map status (tasks (fst (sweeps tz nows db))) = map status (tasks db)
   \<and> only_reminders_differ db (fst (sendReminders tz now db))
   \<and> only_reminders_differ db (fst (sweeps tz nows db))"
proof -
  have r: "only_reminders_differ db db"
    by (simp add: only_reminders_differ_def)
  have a: "only_reminders_differ db (fst (sendReminders tz now db))"
    using r
    by (rule sendReminders_preserves [where P = "only_reminders_differ db", rotated 2])
       (erule (1) markReminderSent_frame, erule (1) markOverdueReminderSent_frame)
  have b: "only_reminders_differ db (fst (sweeps tz nows db))"
    using r
    by (rule sweeps_preserves [where P = "only_reminders_differ db", rotated 2])
       (erule (1) markReminderSent_frame, erule (1) markOverdueReminderSent_frame)
  from a b show ?thesis by (simp add: only_reminders_differ_def)
qed

theorem sweep_never_changes_tasks_witness:
  "tasks (fst (sendReminders 0 t0 (demo_db [demo_task TODO (Some (t0 - 48 * hour_ms))])))
     = [demo_task TODO (Some (t0 - 48 * hour_ms))]
   \<and> map status (tasks (fst (sweeps 0 [t0, t0 + 25 * hour_ms]
         (demo_db [demo_task TODO (Some (t0 - 48 * hour_ms))])))) = [TODO]"
  using sweep_never_changes_tasks [of 0 t0 "demo_db [demo_task TODO (Some (t0 - 48 * hour_ms))]"
          "[t0, t0 + 25 * hour_ms]"]
  by (simp add: demo_db_def)

subsection \<open>The sweep writes nothing and sends nothing\<close>

text \<open>Every type the sweep stores is refused by the \<^verbatim>\<open>CHECK\<close> constraint, so a run leaves
  the store as it found it.\<close>

lemma markReminderSent_window_key:
  "ty \<in> fst ` set REMINDER_WINDOWS \<Longrightarrow> markReminderSent now c ty db = Inr db' \<Longrightarrow> db' = db"
  by (auto simp: markReminderSent_def upsert_reminder_def type_check_def REMINDER_WINDOWS_def
      split: option.splits)

lemma markOverdueReminderSent_refused:
  "markOverdueReminderSent now c db = Inr db' \<Longrightarrow> db' = db"
  by (auto simp: markOverdueReminderSent_def replace_reminder_def type_check_def
      split: option.splits)

lemma sweep_writes_nothing: "fst (sendReminders tz now db) = db"
proof (rule sendReminders_preserves [where P = "\<lambda>d. d = db"])
  show "db' = db"
    if "ty \<in> fst ` set REMINDER_WINDOWS" and "d = db" and "markReminderSent t c ty d = Inr db'"
    for t c ty d db'
    using that markReminderSent_window_key by blast
  show "db' = db" if "d = db" and "markOverdueReminderSent t c d = Inr db'" for t c d db'
    using that markOverdueReminderSent_refused by blast
qed simp

text \<open>No send function reaches \<^verbatim>\<open>sendMessage\<close>, so no run sends a message.\<close>

lemma sent_of_append [simp]: "sent_of (xs @ ys) = sent_of xs @ sent_of ys"
  by (induction xs rule: sent_of.induct) simp_all


lemma sendReminderToUser_unsent [simp]: "sent_of (sendReminderToUser db u task ty) = []"
  by (simp add: sendReminderToUser_def getTexts_def split: option.splits)

lemma sendOverdueReminderToUser_unsent [simp]: "sent_of (sendOverdueReminderToUser db u task) = []"
  by (simp add: sendOverdueReminderToUser_def getTexts_def split: option.splits)






lemmas sweep_eval =
  sendReminders_def REMINDER_WINDOWS_def getUpcomingDeadlines_def getOverdueTasks_def
  iso_ge_current_timestamp_def iso_lt_current_timestamp_def utc_day_def day_ms_def
  current_timestamp_def parse_local_def getTexts_def
  demo_db_def demo_task_def t0_def hour_ms_def due_ms_def wasReminderSent_def task_id_of_def
  getByPlankaId_def getByTelegramId_def recipients_def sendReminderToUser_def
  sendOverdueReminderToUser_def markReminderSent_def markOverdueReminderSent_def
  upsert_reminder_def replace_reminder_def type_check_def getLastOverdueReminder_def
  same_key_def List.map_filter_def Let_def

subsection \<open>Runs in a row\<close>



text \<open>
  C6. Runs 25 hours apart must both escalate an overdue task, and the second must refresh
  \<^verbatim>\<open>sent_at\<close>; runs 23 hours apart must not both escalate it. On the code, with the sample
  task two days overdue: no run sends the overdue notice (\<^verbatim>\<open>sendOverdueReminderToUser\<close>
  throws on \<^verbatim>\<open>getTexts\<close> before \<^verbatim>\<open>sendMessage\<close>), and \<^verbatim>\<open>markOverdueReminderSent\<close> fails on
  the \<^verbatim>\<open>CHECK\<close> constraint (type \<^verbatim>\<open>overdue\<close>), so the ledger has no \<^verbatim>\<open>sent_at\<close> after any
  run. \<^verbatim>\<open>getLastOverdueReminder\<close> then finds no row, and the run 23 hours later goes
  through the escalation again, as the run 25 hours later does.
\<close>

theorem overdue_never_notified_nor_recorded:
  "sweeps tz [t0, t0 + 25 * hour_ms] (demo_db [demo_task TODO (Some (t0 - 48 * hour_ms))])
     = (demo_db [demo_task TODO (Some (t0 - 48 * hour_ms))],
        [[Caught (OverdueMsg 22 ''c1''), Caught (OverdueMsg 11 ''c1''),
          JobFailed SQLITE_CONSTRAINT_CHECK],
         [Caught (OverdueMsg 22 ''c1''), Caught (OverdueMsg 11 ''c1''),
          JobFailed SQLITE_CONSTRAINT_CHECK]])
 \<and> sweeps tz [t0, t0 + 23 * hour_ms] (demo_db [demo_task TODO (Some (t0 - 48 * hour_ms))])
     = (demo_db [demo_task TODO (Some (t0 - 48 * hour_ms))],
        [[Caught (OverdueMsg 22 ''c1''), Caught (OverdueMsg 11 ''c1''),
          JobFailed SQLITE_CONSTRAINT_CHECK],
         [Caught (OverdueMsg 22 ''c1''), Caught (OverdueMsg 11 ''c1''),
          JobFailed SQLITE_CONSTRAINT_CHECK]])
 \<and> sent_of (concat (snd (sweeps tz [t0, t0 + 25 * hour_ms]
        (demo_db [demo_task TODO (Some (t0 - 48 * hour_ms))])))) = []
 \<and> reminders (demo_db [demo_task TODO (Some (t0 - 48 * hour_ms))]) = []"
  by (simp add: sweep_eval)

subsection \<open>A task due in five hours\<close>

text \<open>
  C2, as stated, fails on the sample task (status todo, creator 22, assignee 11, due in five
  hours, empty ledger): one sweep sends no message, of the 6-hour window or of any other,
  and leaves the ledger empty. It tries the reminder of the first (24-hour) window for
  both users and stops when that window cannot be stored.
\<close>

theorem five_hour_task_nothing_sent:
  "sendReminders 0 t0 (demo_db [demo_task TODO (Some (t0 + 5 * hour_ms))])
     = (demo_db [demo_task TODO (Some (t0 + 5 * hour_ms))],
        [Caught (ReminderMsg 22 ''c1'' ''FIRST''), Caught (ReminderMsg 11 ''c1'' ''FIRST''),
         JobFailed SQLITE_CONSTRAINT_CHECK])
 \<and> sent_of (snd (sendReminders 0 t0 (demo_db [demo_task TODO (Some (t0 + 5 * hour_ms))]))) = []
 \<and> reminders (fst (sendReminders 0 t0 (demo_db [demo_task TODO (Some (t0 + 5 * hour_ms))]))) = []"
  by (simp add: sweep_eval)

lemma utc_day_mono: "a \<le> b \<Longrightarrow> utc_day a \<le> utc_day b"
  by (simp add: utc_day_def day_ms_def zdiv_mono1)

text \<open>
  C2, amended. For a task due in five hours with status todo, creator \<open>B\<close> and assignee
  \<open>A\<close>: the deadline query of the sweep selects the task for the 24-hour and the 6-hour
  window and not for the 2-hour window, and the recipients the sweep takes for the task
  are \<open>B\<close> and \<open>A\<close>.
\<close>

theorem five_hour_task_windows:
  assumes task: "task \<in> set (tasks db)"
    and due: "due_date task = Some (now + 5 * hour_ms)" and st: "status task = TODO"
    and who: "created_by task = B" "assigned_to task = Some A" "A \<noteq> B" "A \<noteq> 0"
  shows "map snd (filter (\<lambda>(ty, hours). task \<in> set (getUpcomingDeadlines now hours db))
                    REMINDER_WINDOWS) = [24, 6]
       \<and> recipients task = [B, A]"
proof -
  have "utc_day now \<le> utc_day (now + 5 * hour_ms)"
    by (rule utc_day_mono) (simp add: hour_ms_def)
  then have sel: "task \<in> set (getUpcomingDeadlines now hours db) \<longleftrightarrow> 5 \<le> hours" for hours
    using task due st
    by (auto simp: getUpcomingDeadlines_def iso_ge_current_timestamp_def hour_ms_def)
  have a: "map snd (filter (\<lambda>(ty, hours). task \<in> set (getUpcomingDeadlines now hours db))
                    REMINDER_WINDOWS) = [24, 6]"
    by (simp add: REMINDER_WINDOWS_def sel)
  have b: "recipients task = [B, A]"
    using who by (simp add: recipients_def)
  from a b show ?thesis by blast
qed

theorem five_hour_task_windows_witness:
  "map snd (filter (\<lambda>(ty, hours). demo_task TODO (Some (t0 + 5 * hour_ms))
         \<in> set (getUpcomingDeadlines t0 hours (demo_db [demo_task TODO (Some (t0 + 5 * hour_ms))])))
       REMINDER_WINDOWS) = [24, 6]
 \<and> recipients (demo_task TODO (Some (t0 + 5 * hour_ms))) = [22, 11]"
proof -
  let ?t = "demo_task TODO (Some (t0 + 5 * hour_ms))"
  have "?t \<in> set (tasks (demo_db [?t]))"
    and "due_date ?t = Some (t0 + 5 * hour_ms)" and "status ?t = TODO"
    and "created_by ?t = 22" and "assigned_to ?t = Some 11" and "(11::int) \<noteq> 22" and "(11::int) \<noteq> 0"
    by (simp_all add: demo_task_def demo_db_def)
  from five_hour_task_windows [OF this] show ?thesis .
qed

section \<open>The daily digest: results\<close>

lemma addressed_append [simp]: "addressed (xs @ ys) = addressed xs @ addressed ys"
  by (induction xs rule: addressed.induct) simp_all

lemma sent_of_subset_addressed: "set (sent_of es) \<subseteq> set (addressed es)"
  by (induction es rule: addressed.induct) auto

lemma addressed_sendMorningDigest:
  "addressed (sendMorningDigest db u) = (if getByTelegramId db u = None then [] else [MorningDigestMsg u])"
  by (simp add: sendMorningDigest_def getTexts_def split: option.splits)

lemma addressed_sendEveningDigest:
  "addressed (sendEveningDigest db u) = (if getByTelegramId db u = None then [] else [EveningDigestMsg u])"
  by (simp add: sendEveningDigest_def getTexts_def split: option.splits)

lemma digestLoop_addressed:
  "m \<in> set (addressed (digestLoop ty db us)) \<Longrightarrow>
   \<exists>usr \<in> set us. telegram_id usr = chat_of m \<and> digestEnabled (getUserSettings db (chat_of m))"
  by (induction us)
     (auto simp: Let_def addressed_sendMorningDigest addressed_sendEveningDigest
           split: if_splits)

lemma digestLoop_morning_includes:
  "usr \<in> set us \<Longrightarrow> digestEnabled (getUserSettings db (telegram_id usr)) \<Longrightarrow>
   digestHour (getUserSettings db (telegram_id usr)) = 9 \<Longrightarrow>
   getByTelegramId db (telegram_id usr) \<noteq> None \<Longrightarrow>
   MorningDigestMsg (telegram_id usr) \<in> set (addressed (digestLoop Morning db us))"
  by (induction us) (auto simp: Let_def addressed_sendMorningDigest)

lemma find_not_None: "x \<in> set xs \<Longrightarrow> P x \<Longrightarrow> find P xs \<noteq> None"
  by (induction xs) auto

text \<open>
  C9, amended. A user whose settings have the digest disabled gets no message from the
  morning run, and the run does not call \<^verbatim>\<open>sendMorningDigest\<close> for them. A user with no
  settings row gets the defaults (enabled, hour 9); when that user is an owner or an
  administrator, the morning run calls \<^verbatim>\<open>sendMorningDigest\<close> for them. Every user a digest
  run addresses is an owner or an administrator.
\<close>

theorem digest_settings_gate:
  "(\<not> digestEnabled (getUserSettings db u) \<longrightarrow>
      (\<forall>m \<in> set (addressed (sendDailyDigest Morning db)). chat_of m \<noteq> u)
      \<and> (\<forall>m \<in> set (sent_of (sendDailyDigest Morning db)). chat_of m \<noteq> u))
 \<and> (find (\<lambda>s. set_user_id s = u) (settings db) = None \<longrightarrow>
      getUserSettings db u = \<lparr>digestEnabled = True, digestHour = 9, notificationsEnabled = True\<rparr>
      \<and> ((\<exists>usr \<in> set (users db). telegram_id usr = u \<and> (role usr = OWNER \<or> role usr = ADMIN)) \<longrightarrow>
           MorningDigestMsg u \<in> set (addressed (sendDailyDigest Morning db))))
 \<and> (\<forall>m \<in> set (addressed (sendDailyDigest ty db)).
       \<exists>usr \<in> set (users db). telegram_id usr = chat_of m \<and> (role usr = OWNER \<or> role usr = ADMIN))"
proof -
  have a: "\<not> digestEnabled (getUserSettings db u) \<longrightarrow>
      (\<forall>m \<in> set (addressed (sendDailyDigest Morning db)). chat_of m \<noteq> u)"
    using digestLoop_addressed [of _ Morning db "getAll db OWNER @ getAll db ADMIN"]
    by (auto simp: sendDailyDigest_def)
  then have a': "\<not> digestEnabled (getUserSettings db u) \<longrightarrow>
      (\<forall>m \<in> set (sent_of (sendDailyDigest Morning db)). chat_of m \<noteq> u)"
    using sent_of_subset_addressed [of "sendDailyDigest Morning db"] by blast
  have b: "MorningDigestMsg u \<in> set (addressed (sendDailyDigest Morning db))"
    if none: "find (\<lambda>s. set_user_id s = u) (settings db) = None"
      and usr: "usr \<in> set (users db)" "telegram_id usr = u" "role usr = OWNER \<or> role usr = ADMIN"
    for usr
  proof -
    have s: "getUserSettings db u = \<lparr>digestEnabled = True, digestHour = 9, notificationsEnabled = True\<rparr>"
      using none by (simp add: getUserSettings_def)
    have "usr \<in> set (getAll db OWNER @ getAll db ADMIN)"
      using usr by (auto simp: getAll_def)
    moreover have "getByTelegramId db (telegram_id usr) \<noteq> None"
      unfolding getByTelegramId_def using usr(1) by (rule find_not_None) simp
    ultimately show ?thesis
      using digestLoop_morning_includes [of usr "getAll db OWNER @ getAll db ADMIN" db] s usr(2)
      by (simp add: sendDailyDigest_def)
  qed
  have c: "find (\<lambda>s. set_user_id s = u) (settings db) = None \<longrightarrow>
      getUserSettings db u = \<lparr>digestEnabled = True, digestHour = 9, notificationsEnabled = True\<rparr>"
    by (simp add: getUserSettings_def)
  have d: "\<exists>usr \<in> set (users db). telegram_id usr = chat_of m \<and> (role usr = OWNER \<or> role usr = ADMIN)"
    if "m \<in> set (addressed (sendDailyDigest ty db))" for m
  proof -
    from that obtain usr where "usr \<in> set (getAll db OWNER @ getAll db ADMIN)"
      and "telegram_id usr = chat_of m"
      using digestLoop_addressed [of m ty db "getAll db OWNER @ getAll db ADMIN"]
      by (auto simp: sendDailyDigest_def)
    then show ?thesis by (auto simp: getAll_def)
  qed
  from a a' b c d show ?thesis by blast
qed

lemmas digest_eval = sendDailyDigest_def getAll_def demo_db_def getUserSettings_def
  sendMorningDigest_def getByTelegramId_def getTexts_def Let_def

text \<open>
  C9, as stated, fails for an employee: user 11 of the sample store has no settings row,
  and the morning run calls \<^verbatim>\<open>sendMorningDigest\<close> for the owner only.
\<close>

theorem employee_without_settings_not_in_run:
  "find (\<lambda>s. set_user_id s = 11) (settings (demo_db [])) = None
 \<and> map_option role (getByTelegramId (demo_db []) 11) = Some EMPLOYEE
 \<and> sendDailyDigest Morning (demo_db []) = [Caught (MorningDigestMsg 22)]
 \<and> addressed (sendDailyDigest Morning (demo_db [])) = [MorningDigestMsg 22]"
  by (simp add: digest_eval)

theorem digest_settings_gate_witness:
  "sendDailyDigest Morning ((demo_db [])\<lparr>settings :=
       [\<lparr>set_user_id = 22, digest_hour = 9, digest_enabled = 0, notifications_enabled = 1\<rparr>]\<rparr>) = []
 \<and> getUserSettings (demo_db []) 22
       = \<lparr>digestEnabled = True, digestHour = 9, notificationsEnabled = True\<rparr>
 \<and> MorningDigestMsg 22 \<in> set (addressed (sendDailyDigest Morning (demo_db [])))
 \<and> (\<exists>usr \<in> set (users (demo_db [])). telegram_id usr = 22 \<and> (role usr = OWNER \<or> role usr = ADMIN))"
proof -
  let ?off = "(demo_db [])\<lparr>settings :=
       [\<lparr>set_user_id = 22, digest_hour = 9, digest_enabled = 0, notifications_enabled = 1\<rparr>]\<rparr>"
  have "\<not> digestEnabled (getUserSettings ?off 22)"
    by (simp add: getUserSettings_def)
  then have "\<forall>m \<in> set (addressed (sendDailyDigest Morning ?off)). chat_of m \<noteq> 22"
    using digest_settings_gate [of ?off 22 Morning] by blast
  moreover have "\<forall>m \<in> set (addressed (sendDailyDigest Morning ?off)). chat_of m = 22"
    using digest_settings_gate [of ?off 22 Morning] by (auto simp: demo_db_def)
  ultimately have "addressed (sendDailyDigest Morning ?off) = []"
    by (cases "addressed (sendDailyDigest Morning ?off)") auto
  moreover have "length (addressed (sendDailyDigest Morning ?off))
      = length (sendDailyDigest Morning ?off)"
    by (simp add: digest_eval)
  ultimately have a: "sendDailyDigest Morning ?off = []"
    by simp
  have n: "find (\<lambda>s. set_user_id s = 22) (settings (demo_db [])) = None"
    by (simp add: demo_db_def)
  have o: "\<exists>usr \<in> set (users (demo_db [])). telegram_id usr = 22 \<and> (role usr = OWNER \<or> role usr = ADMIN)"
    by (simp add: demo_db_def)
  from a n o digest_settings_gate [of "demo_db []" 22 Morning] show ?thesis by blast
qed

end
